theory Spec2Isabelle
  imports Complex_Main "HOL-Library.Multiset"
begin

section \<open>Periodic KDTree: \<open>MDAnalysis.lib.pkdtree\<close>\<close>

text \<open>
  The module wraps an external k-d tree (\<open>Bio.KDTree._CKDTree\<close>) so that radius
  searches respect periodic boundary conditions. NumPy's floating point numbers are
  modelled by \<^typ>\<open>real\<close>; a one-dimensional array is a \<^typ>\<open>real list\<close>.
\<close>

subsection \<open>NumPy arrays\<close>

type_synonym vec = "real list"

text \<open>An array carries its shape and its elements in row-major order.\<close>

record ndarray =
  shape :: "nat list"
  elems :: "real list"

definition vector :: "real list \<Rightarrow> ndarray" where
  "vector xs = \<lparr>shape = [length xs], elems = xs\<rparr>"

definition matrix :: "nat \<Rightarrow> real list list \<Rightarrow> ndarray" where
  "matrix ncols rs = \<lparr>shape = [length rs, ncols], elems = concat rs\<rparr>"

text \<open>The rows of an \<open>(N, d)\<close> array.\<close>

fun rows :: "nat \<Rightarrow> nat \<Rightarrow> real list \<Rightarrow> real list list" where
  "rows d 0 xs = []"
| "rows d (Suc n) xs = take d xs # rows d n (drop d xs)"

text \<open>\<open>a.min()\<close> and \<open>a.max()\<close> of a non-empty array.\<close>

definition amin :: "real list \<Rightarrow> real" where
  "amin xs = fold min (tl xs) (hd xs)"

definition amax :: "real list \<Rightarrow> real" where
  "amax xs = fold max (tl xs) (hd xs)"

text \<open>Elementwise sum of two arrays of the same length.\<close>

definition vadd :: "vec \<Rightarrow> vec \<Rightarrow> vec" where
  "vadd u v = map2 (+) u v"

text \<open>\<open>np.zeros(n)\<close>.\<close>

definition zeros :: "nat \<Rightarrow> vec" where
  "zeros n = replicate n 0"

text \<open>\<open>np.sort\<close> and \<open>np.unique\<close> on index arrays.\<close>

definition np_unique :: "nat list \<Rightarrow> nat list" where
  "np_unique xs = sort (remdups xs)"

definition np_sort :: "nat list \<Rightarrow> nat list" where
  "np_sort xs = sort xs"

subsection \<open>Wrapping onto the central cell\<close>

text \<open>
  \<open>x - np.where(box > 0.0, np.floor(x / box) * box, 0.0)\<close>, one coordinate.
  On a non-periodic axis (\<open>box = 0\<close>) the quotient is discarded by \<open>np.where\<close>.
  This is the value of the expression in exact arithmetic; the search is developed on
  it.
\<close>

definition wrap1 :: "real \<Rightarrow> real \<Rightarrow> real" where
  "wrap1 b x = x - (if b > 0 then of_int \<lfloor>x / b\<rfloor> * b else 0)"

definition wrap :: "vec \<Rightarrow> vec \<Rightarrow> vec" where
  "wrap box p = map2 (\<lambda>x b. wrap1 b x) p box"

subsection \<open>Wrapping in floating point\<close>

text \<open>
  NumPy evaluates the expression in the floating point format of its arrays, and each
  of the three operations (the quotient, the product and the difference) rounds its
  result to the nearest number of the format, a tie going to the even mantissa.

  \<open>binade n a e\<close> looks for the power of two at or below a positive \<open>a\<close>, in at
  most \<open>n\<close> steps. The exponents of binary64 lie between -1074 and 1023, so 1100
  steps reach the exponent of every finite number of the format, and of everything
  smaller the exponent is the least one. A result of magnitude \<open>2 ^ 1024\<close> or more is
  \<open>inf\<close> in NumPy and has no counterpart here.
\<close>

fun binade :: "nat \<Rightarrow> real \<Rightarrow> int \<Rightarrow> int" where
  "binade 0 a e = e"
| "binade (Suc n) a e =
     (if 2 \<le> a then binade n (a / 2) (e + 1)
      else if a < 1 then binade n (a * 2) (e - 1)
      else e)"

text \<open>The nearest integer, a tie going to the even one.\<close>

definition round_even :: "real \<Rightarrow> int" where
  "round_even r =
     (let f = \<lfloor>r\<rfloor>; d = r - of_int f in
      if d < 1 / 2 then f else if 1 / 2 < d then f + 1 else if even f then f else f + 1)"

text \<open>
  Rounding to a binary format with \<open>m\<close> fraction bits and least normal exponent
  \<open>emin\<close>: the unit in the last place is \<open>2 ^ (e - m)\<close>, with \<open>e\<close> the exponent of
  the number, or \<open>emin\<close> for a subnormal one.
\<close>

definition fl :: "int \<Rightarrow> int \<Rightarrow> real \<Rightarrow> real" where
  "fl m emin x =
     (if x = 0 then 0
      else let e = max (binade 1100 \<bar>x\<bar> 0) emin;
               u = (if m \<le> e then 2 ^ nat (e - m) else 1 / 2 ^ nat (m - e))
           in of_int (round_even (x / u)) * u)"

text \<open>\<open>float64\<close>, NumPy's default, and \<open>float32\<close>, the format of the main block.\<close>

definition fl64 :: "real \<Rightarrow> real" where
  "fl64 = fl 52 (- 1022)"

definition fl32 :: "real \<Rightarrow> real" where
  "fl32 = fl 23 (- 126)"

text \<open>
  The wrapping expression with every operation rounded by \<open>rnd\<close>. The result of
  \<open>np.floor\<close> is an integer of the format and is not rounded again.
\<close>

definition wrap1_fl :: "(real \<Rightarrow> real) \<Rightarrow> real \<Rightarrow> real \<Rightarrow> real" where
  "wrap1_fl rnd b x =
     rnd (x - (if b > 0 then rnd (of_int \<lfloor>rnd (x / b)\<rfloor> * b) else 0))"

definition wrap_fl :: "(real \<Rightarrow> real) \<Rightarrow> vec \<Rightarrow> vec \<Rightarrow> vec" where
  "wrap_fl rnd box p = map2 (\<lambda>x b. wrap1_fl rnd b x) p box"


subsection \<open>Exceptions\<close>

text \<open>
  The module raises \<open>Exception\<close> with a message; the constructors name the failures:
  a box of the wrong length or without a periodic axis, a search before any
  \<open>set_coords\<close>, an array of the wrong shape, a coordinate outside \<open>(-1e6, 1e6)\<close>,
  and NumPy's \<open>ValueError\<close> for the minimum of an array without elements.
  \<open>RadiusError\<close> is not raised by the module but by the external tree: its
  \<open>ValueError('Radius must be positive.')\<close>.
\<close>

datatype error =
  ConfigurationError | NotBuiltError | ShapeError | RangeError | EmptyInputError | RadiusError

subsection \<open>The external k-d tree\<close>

text \<open>
  The tree of \<open>Bio.KDTree._CKDTree\<close> is not part of this module. Its state is the
  point set it was given and the indices found by the most recent query.
\<close>

record kdtree =
  kdim :: nat
  bucket_size :: nat
  data :: "vec list"
  neighbors :: "nat list option"

text \<open>
  A radius query of the tree: from the stored points, a center and a radius to the array
  of indices found; \<open>None\<close> is Python's \<open>None\<close>. The module's own code is
  modelled for an arbitrary query.
\<close>

type_synonym query = "vec list \<Rightarrow> vec \<Rightarrow> real \<Rightarrow> nat list option"

definition KDTree :: "nat \<Rightarrow> nat \<Rightarrow> kdtree" where
  "KDTree d b = \<lparr>kdim = d, bucket_size = b, data = [], neighbors = None\<rparr>"

text \<open>
  Modelled from the spec: the build of the external tree, which discards what the tree
  held and stores the new point set.
\<close>

definition set_data :: "kdtree \<Rightarrow> vec list \<Rightarrow> kdtree" where
  "set_data t ps = t\<lparr>data := ps, neighbors := None\<rparr>"

text \<open>
  The tree refuses a radius that is not positive and raises; otherwise it runs the
  query and keeps what was found.
\<close>

definition search_center_radius :: "query \<Rightarrow> kdtree \<Rightarrow> vec \<Rightarrow> real \<Rightarrow> error + kdtree" where
  "search_center_radius q t c r =
     (if r \<le> 0 then Inl RadiusError else Inr (t\<lparr>neighbors := q (data t) c r\<rparr>))"

definition kdt_get_indices :: "kdtree \<Rightarrow> nat list option" where
  "kdt_get_indices t = neighbors t"

text \<open>Squared Euclidean distance.\<close>

definition dist2 :: "vec \<Rightarrow> vec \<Rightarrow> real" where
  "dist2 p c = sum_list (map2 (\<lambda>x y. (x - y)\<^sup>2) p c)"

definition in_radius :: "vec \<Rightarrow> real \<Rightarrow> vec \<Rightarrow> bool" where
  "in_radius c r p \<longleftrightarrow> 0 \<le> r \<and> dist2 p c \<le> r\<^sup>2"

text \<open>
  Modelled from the spec: the radius query of the external tree, which returns the
  indices of the points whose Euclidean distance to the center is at most the radius,
  compared on squared distances.
\<close>

definition radius_query :: query where
  "radius_query ps c r = Some (filter (\<lambda>i. in_radius c r (ps ! i)) [0..<length ps])"

subsection \<open>The class \<open>PeriodicKDTree\<close>\<close>

record pkdtree =
  dim :: nat
  kdt :: kdtree
  built :: nat
  box :: vec
  indices :: "nat list option"

text \<open>An entry of the box handed to the constructor: a number, or \<open>inf\<close>, \<open>-inf\<close>, \<open>nan\<close>.\<close>

datatype boxlen = Fin real | NonFin

text \<open>
  \<open>np.where(box == np.inf, 0.0, box)\<close> followed by \<open>np.where(box > 0.0, box, 0.0)\<close>.
\<close>

fun normalize_axis :: "boxlen \<Rightarrow> real" where
  "normalize_axis NonFin = 0"
| "normalize_axis (Fin b) = (if b > 0 then b else 0)"

definition init :: "boxlen list \<Rightarrow> nat \<Rightarrow> error + pkdtree" where
  "init bx bsize =
     (let d = 3; t = KDTree d bsize in
      if length bx \<noteq> d then Inl ConfigurationError
      else let b = map normalize_axis bx in
        if \<not> list_ex (\<lambda>x. x \<noteq> 0) b then Inl ConfigurationError
        else Inr \<lparr>dim = d, kdt = t, built = 0, box = b, indices = Some []\<rparr>)"

definition set_coords :: "pkdtree \<Rightarrow> ndarray \<Rightarrow> error option \<times> pkdtree" where
  "set_coords self coords =
     (if elems coords = [] then (Some EmptyInputError, self)
      else if amin (elems coords) \<le> - 1000000 \<or> amax (elems coords) \<ge> 1000000
        then (Some RangeError, self)
      else if length (shape coords) \<noteq> 2 \<or> shape coords ! 1 \<noteq> dim self
        then (Some ShapeError, self)
      else let wrapped_data = map (wrap (box self)) (rows (dim self) (shape coords ! 0) (elems coords))
           in (None, self\<lparr>kdt := set_data (kdt self) wrapped_data, built := 1\<rparr>))"

text \<open>The body of the loop over the axes in \<open>find_centers\<close>.\<close>

definition axis_step :: "pkdtree \<Rightarrow> vec \<Rightarrow> vec \<Rightarrow> nat \<Rightarrow> vec list \<Rightarrow> vec list" where
  "axis_step self wrapped_center extents i displacements =
     (let displacement = zeros (dim self); extent = extents ! i in
      if extent > 0 then
        if box self ! i - wrapped_center ! i < extent
          then displacements @ [displacement[i := - (box self ! i)]]
        else if wrapped_center ! i < extent
          then displacements @ [displacement[i := box self ! i]]
        else displacements
      else displacements)"

text \<open>
  The combination of the displacements; the bound of the inner \<open>range\<close> is read once,
  when the inner loop starts.
\<close>

definition combine :: "vec list \<Rightarrow> vec list" where
  "combine displacements =
     (let n_displacements = length displacements in
      if n_displacements > 1 then
        fold (\<lambda>start ds.
               fold (\<lambda>i ds'. ds' @ [vadd (ds' ! start) (ds' ! i)]) [start + 1..<length ds] ds)
             (rev [0..<n_displacements]) displacements
      else displacements)"

definition find_centers :: "pkdtree \<Rightarrow> vec \<Rightarrow> real \<Rightarrow> vec list" where
  "find_centers self center radius =
     (let wrapped_center = wrap (box self) center;
          centers = [wrapped_center];
          extents = map (\<lambda>b. b / 2) (box self);
          extents = map (\<lambda>e. if e > radius then radius else e) extents;
          displacements = fold (axis_step self wrapped_center extents) [0..<dim self] [];
          displacements = combine displacements
      in centers @ map (\<lambda>d. vadd wrapped_center d) displacements)"

text \<open>
  The body of the loop over the image centers in \<open>search\<close>. An exception of the
  tree leaves the loop. The array built by \<open>np.append\<close> is not assigned to anything.
\<close>

definition search_step :: "query \<Rightarrow> real \<Rightarrow> vec \<Rightarrow> pkdtree \<Rightarrow> error + pkdtree" where
  "search_step q radius c self =
     (case search_center_radius q (kdt self) c radius of
        Inl e \<Rightarrow> Inl e
      | Inr t \<Rightarrow>
          (let self = self\<lparr>kdt := t\<rparr> in
           case indices self of
             None \<Rightarrow> Inr (self\<lparr>indices := kdt_get_indices (kdt self)\<rparr>)
           | Some ix \<Rightarrow> (let appended = ix @ [0, 1] in Inr self)))"

fun search_loop :: "query \<Rightarrow> real \<Rightarrow> vec list \<Rightarrow> pkdtree \<Rightarrow> error option \<times> pkdtree" where
  "search_loop q radius [] self = (None, self)"
| "search_loop q radius (c # cs) self =
     (case search_step q radius c self of
        Inl e \<Rightarrow> (Some e, self)
      | Inr self' \<Rightarrow> search_loop q radius cs self')"

definition search :: "query \<Rightarrow> pkdtree \<Rightarrow> ndarray \<Rightarrow> real \<Rightarrow> error option \<times> pkdtree" where
  "search q self center radius =
     (if built self = 0 then (Some NotBuiltError, self)
      else if shape center \<noteq> [dim self] then (Some ShapeError, self)
      else let self = self\<lparr>indices := None\<rparr> in
        case search_loop q radius (find_centers self (elems center) radius) self of
          (Some e, self) \<Rightarrow> (Some e, self)
        | (None, self) \<Rightarrow>
            (None, case indices self of
                     None \<Rightarrow> self
                   | Some ix \<Rightarrow> self\<lparr>indices := Some (np_sort (np_unique ix))\<rparr>))"

definition get_indices :: "pkdtree \<Rightarrow> nat list option" where
  "get_indices self = indices self"

subsection \<open>The image set as a family of subsets\<close>

text \<open>
  The closed form that the loops of \<open>find_centers\<close> are compared with: the effective
  extent of an axis, the axes flagged as adjacent to a face, the displacement of a
  flagged axis, and the center translated by the sum of every non-empty subset of
  these displacements.
\<close>

definition extent :: "pkdtree \<Rightarrow> real \<Rightarrow> nat \<Rightarrow> real" where
  "extent self radius i = min (box self ! i / 2) radius"

definition flagged :: "pkdtree \<Rightarrow> vec \<Rightarrow> real \<Rightarrow> nat \<Rightarrow> bool" where
  "flagged self c radius i \<longleftrightarrow>
     extent self radius i > 0
     \<and> (box self ! i - c ! i < extent self radius i \<or> c ! i < extent self radius i)"

definition axis_displacement :: "pkdtree \<Rightarrow> vec \<Rightarrow> real \<Rightarrow> nat \<Rightarrow> vec" where
  "axis_displacement self c radius i =
     (zeros 3)[i := (if box self ! i - c ! i < extent self radius i
                     then - (box self ! i) else box self ! i)]"

definition vsum :: "vec list \<Rightarrow> vec" where
  "vsum ds = foldr vadd ds (zeros 3)"

definition subset_images :: "pkdtree \<Rightarrow> vec \<Rightarrow> real \<Rightarrow> vec list" where
  "subset_images self c radius =
     (let ds = map (axis_displacement self c radius) (filter (flagged self c radius) [0..<3])
      in c # map (\<lambda>S. vadd c (vsum S)) (filter (\<lambda>S. S \<noteq> []) (subseqs ds)))"

subsection \<open>The scenario of the module's main block\<close>

definition demo_box :: "boxlen list" where
  "demo_box = [Fin 10, Fin 10, Fin 10]"

text \<open>The object made by \<open>PeriodicKDTree(box)\<close>.\<close>

definition demo_new :: pkdtree where
  "demo_new = \<lparr>dim = 3, kdt = KDTree 3 10, built = 0, box = [10, 10, 10], indices = Some []\<rparr>"

definition demo_coords :: ndarray where
  "demo_coords =
     matrix 3 [[2, 2, 2], [5, 5, 5], [11 / 10, 11 / 10, 11 / 10], [11, - 11, 11], [21, 21, 3]]"

text \<open>The tree after \<open>set_coords(coords)\<close>, and after the first search of the block.\<close>

definition demo_tree :: pkdtree where
  "demo_tree = snd (set_coords demo_new demo_coords)"

definition demo_found :: pkdtree where
  "demo_found = snd (search radius_query demo_tree (vector [11, 2, 2]) (3 / 2))"

text \<open>Two points on either side of a periodic face of the same box.\<close>

definition face_coords :: ndarray where
  "face_coords = matrix 3 [[1 / 2, 5, 5], [19 / 2, 5, 5]]"

definition face_tree :: pkdtree where
  "face_tree = snd (set_coords demo_new face_coords)"

section \<open>Properties\<close>

subsection \<open>Wrapping\<close>



lemma length_wrap [simp]: "length (wrap b p) = min (length p) (length b)"
  by (simp add: wrap_def)




subsection \<open>Wrapping in floating point\<close>

lemma binade_numeral:
  "binade (numeral k) a e =
     (if 2 \<le> a then binade (pred_numeral k) (a / 2) (e + 1)
      else if a < 1 then binade (pred_numeral k) (a * 2) (e - 1)
      else e)"
  by (simp add: numeral_eq_Suc)

lemmas fl_eval = fl64_def fl32_def fl_def binade_numeral round_even_def Let_def

lemma fl_values:
  "fl64 (1 / 10) = 3602879701896397 / 36028797018963968"
  "fl64 (1 + 1 / 2 ^ 53) = 1"
  "fl64 (1 + 3 / 2 ^ 53) = 1 + 1 / 2 ^ 51"
  "fl64 (3 / 2 ^ 1075) = 1 / 2 ^ 1073"
  "fl32 (1 / 10) = 13421773 / 134217728"
  by (simp_all add: fl_eval)

lemma length_wrap_fl [simp]: "length (wrap_fl rnd b p) = min (length p) (length b)"
  by (simp add: wrap_fl_def)






subsection \<open>The object\<close>

lemma init_demo: "init demo_box 10 = Inr demo_new"
  by (simp add: init_def demo_box_def demo_new_def Let_def)

lemma init_Inr:
  assumes "init bx n = Inr t"
  shows "dim t = 3" "length (box t) = 3" "built t = 0" "indices t = Some []"
    "\<forall>b \<in> set (box t). 0 \<le> b" "\<exists>b \<in> set (box t). 0 < b"
proof -
  from assms have len: "length bx = 3"
    and ex: "list_ex (\<lambda>x. x \<noteq> 0) (map normalize_axis bx)"
    and t: "t = \<lparr>dim = 3, kdt = KDTree 3 n, built = 0, box = map normalize_axis bx, indices = Some []\<rparr>"
    by (auto simp: init_def Let_def split: if_splits)
  have nn: "0 \<le> normalize_axis a" for a by (cases a) simp_all
  show "dim t = 3" "length (box t) = 3" "built t = 0" "indices t = Some []"
    using t len by simp_all
  show "\<forall>b \<in> set (box t). 0 \<le> b" using t nn by auto
  from ex obtain a where "a \<in> set bx" "normalize_axis a \<noteq> 0"
    by (auto simp: list_ex_iff)
  then have "normalize_axis a \<in> set (box t)" "0 < normalize_axis a"
    using t nn [of a] by auto
  then show "\<exists>b \<in> set (box t). 0 < b" by blast
qed

lemma set_coords_frame:
  "dim (snd (set_coords self coords)) = dim self"
  "box (snd (set_coords self coords)) = box self"
  by (simp_all add: set_coords_def Let_def)

subsection \<open>The search loop\<close>

lemma search_step_nonpos: "r \<le> 0 \<Longrightarrow> search_step q r c s = Inl RadiusError"
  by (simp add: search_step_def search_center_radius_def)

lemma search_step_pos:
  assumes "0 < r"
  shows "\<exists>s'. search_step q r c s = Inr s'
    \<and> built s' = built s \<and> box s' = box s \<and> dim s' = dim s \<and> data (kdt s') = data (kdt s)
    \<and> indices s' = (case indices s of None \<Rightarrow> q (data (kdt s)) c r | Some ix \<Rightarrow> Some ix)"
  using assms
  by (simp add: search_step_def search_center_radius_def kdt_get_indices_def Let_def
      split: option.split)

lemma search_loop_nonpos:
  "r \<le> 0 \<Longrightarrow> search_loop q r (c # cs) s = (Some RadiusError, s)"
  by (simp add: search_step_nonpos)

text \<open>
  With a positive radius the loop completes and keeps the answer of the first query
  that is not \<open>None\<close>.
\<close>

lemma search_loop_pos:
  assumes "0 < r"
  shows "fst (search_loop q r cs s) = None
    \<and> built (snd (search_loop q r cs s)) = built s
    \<and> box (snd (search_loop q r cs s)) = box s
    \<and> dim (snd (search_loop q r cs s)) = dim s
    \<and> data (kdt (snd (search_loop q r cs s))) = data (kdt s)
    \<and> indices (snd (search_loop q r cs s)) =
        (case indices s of
           Some ix \<Rightarrow> Some ix
         | None \<Rightarrow>
            (case List.find (\<lambda>c. q (data (kdt s)) c r \<noteq> None) cs of
               None \<Rightarrow> None | Some c \<Rightarrow> q (data (kdt s)) c r))"
proof (induction cs arbitrary: s)
  case Nil
  show ?case by (simp split: option.split)
next
  case (Cons c cs)
  from search_step_pos [OF assms, of q c s] obtain s' where
    st: "search_step q r c s = Inr s'"
    and fr: "built s' = built s" "box s' = box s" "dim s' = dim s" "data (kdt s') = data (kdt s)"
    and ix: "indices s' = (case indices s of None \<Rightarrow> q (data (kdt s)) c r | Some ix \<Rightarrow> Some ix)"
    by blast
  have loop: "search_loop q r (c # cs) s = search_loop q r cs s'"
    by (simp add: st)
  show ?case
    unfolding loop using Cons.IH [of s'] fr ix
    by (auto split: option.splits)
qed

lemma find_centers_Cons:
  "\<exists>cs. find_centers s c r = wrap (box s) c # cs"
  by (simp add: find_centers_def Let_def)

lemma axis_step_indices_update [simp]:
  "axis_step (s\<lparr>indices := x\<rparr>) = axis_step s"
  by (intro ext) (simp add: axis_step_def Let_def)

lemma find_centers_indices_update [simp]:
  "find_centers (s\<lparr>indices := x\<rparr>) c r = find_centers s c r"
  by (simp add: find_centers_def)

lemma sorted_np: "sorted (np_sort (np_unique ix))" "distinct (np_sort (np_unique ix))"
  "set (np_sort (np_unique ix)) = set ix"
  by (simp_all add: np_sort_def np_unique_def)

lemma search_completed:
  assumes "built self \<noteq> 0" "shape center = [dim self]" "0 < radius"
  shows "search q self center radius =
    (None, let s = snd (search_loop q radius (find_centers self (elems center) radius)
                     (self\<lparr>indices := None\<rparr>))
           in case indices s of None \<Rightarrow> s
              | Some ix \<Rightarrow> s\<lparr>indices := Some (np_sort (np_unique ix))\<rparr>)"
proof -
  obtain e s where l: "search_loop q radius (find_centers self (elems center) radius)
                     (self\<lparr>indices := None\<rparr>) = (e, s)"
    by (cases "search_loop q radius (find_centers self (elems center) radius)
                     (self\<lparr>indices := None\<rparr>)")
  with search_loop_pos [OF assms(3), of q "find_centers self (elems center) radius"
      "self\<lparr>indices := None\<rparr>"]
  have "e = None" by simp
  then show ?thesis using assms(1,2) l by (simp add: search_def Let_def)
qed

text \<open>
  With a radius that is not positive the first query of the tree raises, after the
  stored result was cleared.
\<close>

lemma search_radius_error:
  assumes "built self \<noteq> 0" "shape center = [dim self]" "radius \<le> 0"
  shows "search q self center radius = (Some RadiusError, self\<lparr>indices := None\<rparr>)"
proof -
  obtain cs where cs: "find_centers self (elems center) radius = wrap (box self) (elems center) # cs"
    using find_centers_Cons by blast
  have "search_loop q radius (find_centers self (elems center) radius)
          (self\<lparr>indices := None\<rparr>) = (Some RadiusError, self\<lparr>indices := None\<rparr>)"
    unfolding cs by (rule search_loop_nonpos [OF assms(3)])
  then show ?thesis
    using assms(1,2) by (simp add: search_def Let_def)
qed

lemma fst_search:
  "fst (search q self center radius) =
     (if built self = 0 then Some NotBuiltError
      else if shape center \<noteq> [dim self] then Some ShapeError
      else if radius \<le> 0 then Some RadiusError
      else None)"
proof -
  consider "built self = 0" | "built self \<noteq> 0" "shape center \<noteq> [dim self]"
    | "built self \<noteq> 0" "shape center = [dim self]" "radius \<le> 0"
    | "built self \<noteq> 0" "shape center = [dim self]" "0 < radius"
    by fastforce
  then show ?thesis
  proof cases
    case 1 then show ?thesis by (simp add: search_def)
  next
    case 2 then show ?thesis by (simp add: search_def)
  next
    case 3 then show ?thesis by (simp add: search_radius_error)
  next
    case 4 then show ?thesis by (simp add: search_completed)
  qed
qed

lemma search_frame:
  "dim (snd (search q self center radius)) = dim self"
  "box (snd (search q self center radius)) = box self"
  "built (snd (search q self center radius)) = built self"
  "data (kdt (snd (search q self center radius))) = data (kdt self)"
proof -
  consider "built self = 0 \<or> shape center \<noteq> [dim self]"
    | "built self \<noteq> 0" "shape center = [dim self]" "radius \<le> 0"
    | "built self \<noteq> 0" "shape center = [dim self]" "0 < radius"
    by fastforce
  then have "dim (snd (search q self center radius)) = dim self
    \<and> box (snd (search q self center radius)) = box self
    \<and> built (snd (search q self center radius)) = built self
    \<and> data (kdt (snd (search q self center radius))) = data (kdt self)"
  proof cases
    case 1
    then show ?thesis by (auto simp: search_def)
  next
    case 2
    then show ?thesis by (simp add: search_radius_error)
  next
    case 3
    from search_loop_pos [OF 3(3), of q "find_centers self (elems center) radius"
      "self\<lparr>indices := None\<rparr>"]
    show ?thesis
      by (simp add: search_completed [OF 3] Let_def split: option.split)
  qed
  then show "dim (snd (search q self center radius)) = dim self"
    "box (snd (search q self center radius)) = box self"
    "built (snd (search q self center radius)) = built self"
    "data (kdt (snd (search q self center radius))) = data (kdt self)"
    by simp_all
qed

text \<open>
  What a completed search stores: the answer of the first query of the loop that is not
  \<open>None\<close>, sorted and without duplicates. The answers of the later queries are not part
  of it.
\<close>

lemma search_stores_first:
  assumes "built self \<noteq> 0" "shape center = [dim self]" "0 < radius"
  shows "get_indices (snd (search q self center radius)) =
    (case List.find (\<lambda>c. q (data (kdt self)) c radius \<noteq> None)
            (find_centers self (elems center) radius) of
       None \<Rightarrow> None
     | Some c \<Rightarrow> map_option (\<lambda>ix. np_sort (np_unique ix)) (q (data (kdt self)) c radius))"
proof -
  have "indices (snd (search_loop q radius (find_centers self (elems center) radius)
                  (self\<lparr>indices := None\<rparr>))) =
          (case List.find (\<lambda>c. q (data (kdt self)) c radius \<noteq> None)
                  (find_centers self (elems center) radius) of
              None \<Rightarrow> None | Some c \<Rightarrow> q (data (kdt self)) c radius)"
    using search_loop_pos [OF assms(3), of q "find_centers self (elems center) radius"
      "self\<lparr>indices := None\<rparr>"]
    by (simp cong: option.case_cong)
  then show ?thesis
    by (simp add: search_completed [OF assms] get_indices_def Let_def split: option.split)
qed

subsection \<open>Errors of \<open>search\<close> and \<open>set_coords\<close>\<close>

lemma amin_le_iff: "xs \<noteq> [] \<Longrightarrow> amin xs \<le> a \<longleftrightarrow> (\<exists>x \<in> set xs. x \<le> a)"
proof -
  have "fold min ys y \<le> a \<longleftrightarrow> y \<le> a \<or> (\<exists>x \<in> set ys. x \<le> a)" for ys and y :: real
    by (induction ys arbitrary: y) (auto simp: min_le_iff_disj)
  then show "xs \<noteq> [] \<Longrightarrow> amin xs \<le> a \<longleftrightarrow> (\<exists>x \<in> set xs. x \<le> a)"
    by (cases xs) (auto simp: amin_def)
qed

lemma amax_ge_iff: "xs \<noteq> [] \<Longrightarrow> a \<le> amax xs \<longleftrightarrow> (\<exists>x \<in> set xs. a \<le> x)"
proof -
  have "a \<le> fold max ys y \<longleftrightarrow> a \<le> y \<or> (\<exists>x \<in> set ys. a \<le> x)" for ys and y :: real
    by (induction ys arbitrary: y) (auto simp: le_max_iff_disj)
  then show "xs \<noteq> [] \<Longrightarrow> a \<le> amax xs \<longleftrightarrow> (\<exists>x \<in> set xs. a \<le> x)"
    by (cases xs) (auto simp: amax_def)
qed


subsection \<open>The image centers\<close>

lemma upt_3: "[0..<3] = [0, 1, 2]"
  by code_simp

lemma combine_0: "combine [] = []"
  by (simp add: combine_def)

lemma combine_1: "combine [a] = [a]"
  by (simp add: combine_def)

lemma combine_2: "combine [a, b] = [a, b, vadd a b]"
  by (simp add: combine_def upt_rec)

lemma combine_3:
  "combine [a, b, c] = [a, b, c, vadd b c, vadd a b, vadd a c, vadd a (vadd b c)]"
  by (simp add: combine_def upt_rec)

lemma axis_step_flagged:
  assumes "dim self = 3" "length (box self) = 3" "i < 3"
    and "extents = map (\<lambda>e. if e > radius then radius else e) (map (\<lambda>b. b / 2) (box self))"
  shows "axis_step self wc extents i ds
       = ds @ (if flagged self wc radius i then [axis_displacement self wc radius i] else [])"
  using assms
  by (auto simp: axis_step_def flagged_def axis_displacement_def extent_def Let_def min_def)

lemma displacements_flagged:
  assumes "dim self = 3" "length (box self) = 3"
    and "extents = map (\<lambda>e. if e > radius then radius else e) (map (\<lambda>b. b / 2) (box self))"
  shows "fold (axis_step self wc extents) [0..<dim self] []
       = map (axis_displacement self wc radius) (filter (flagged self wc radius) [0..<3])"
proof -
  have step: "axis_step self wc extents i ds
       = ds @ (if flagged self wc radius i then [axis_displacement self wc radius i] else [])"
    if "i < 3" for i ds
    using axis_step_flagged [OF assms(1,2) that assms(3)] .
  have "fold (axis_step self wc extents) [0, 1, 2] []
      = axis_step self wc extents 2 (axis_step self wc extents 1 (axis_step self wc extents 0 []))"
    by simp
  also have "\<dots> = map (axis_displacement self wc radius) (filter (flagged self wc radius) [0, 1, 2])"
    by (simp add: step)
  finally show ?thesis by (simp add: assms(1) upt_3)
qed

lemma find_centers_flagged:
  assumes "dim self = 3" "length (box self) = 3"
  shows "find_centers self center radius =
    (let wc = wrap (box self) center in
     wc # map (vadd wc) (combine (map (axis_displacement self wc radius)
                                    (filter (flagged self wc radius) [0..<3]))))"
  using displacements_flagged [OF assms refl]
  by (simp add: find_centers_def Let_def)

lemma length_axis_displacement [simp]: "length (axis_displacement self c r i) = 3"
  by (simp add: axis_displacement_def zeros_def)

lemma vadd_zeros: "length v = n \<Longrightarrow> vadd v (zeros n) = v"
  by (rule nth_equalityI) (simp_all add: vadd_def zeros_def)

lemma length_vadd [simp]: "length (vadd u v) = min (length u) (length v)"
  by (simp add: vadd_def)

lemma vadd_assoc: "vadd (vadd u v) w = vadd u (vadd v w)"
  by (rule nth_equalityI) (simp_all add: vadd_def)

lemma images_3:
  assumes "length a = 3" "length b = 3" "length c = 3"
  shows "mset (map (vadd w) (combine [a, b, c]))
       = mset (map (\<lambda>S. vadd w (vsum S)) (filter (\<lambda>S. S \<noteq> []) (subseqs [a, b, c])))"
  using assms by (simp add: combine_3 vsum_def vadd_zeros Let_def)

lemma images_2:
  assumes "length a = 3" "length b = 3"
  shows "mset (map (vadd w) (combine [a, b]))
       = mset (map (\<lambda>S. vadd w (vsum S)) (filter (\<lambda>S. S \<noteq> []) (subseqs [a, b])))"
  using assms by (simp add: combine_2 vsum_def vadd_zeros Let_def)

lemma images_1:
  assumes "length a = 3"
  shows "mset (map (vadd w) (combine [a]))
       = mset (map (\<lambda>S. vadd w (vsum S)) (filter (\<lambda>S. S \<noteq> []) (subseqs [a])))"
  using assms by (simp add: combine_1 vsum_def vadd_zeros Let_def)

lemma images_0:
  "mset (map (vadd w) (combine []))
       = mset (map (\<lambda>S. vadd w (vsum S)) (filter (\<lambda>S. S \<noteq> []) (subseqs [])))"
  by (simp add: combine_0)

lemma images_le_3:
  assumes "length ds \<le> 3" "\<forall>d \<in> set ds. length d = 3"
  shows "mset (map (vadd w) (combine ds))
       = mset (map (\<lambda>S. vadd w (vsum S)) (filter (\<lambda>S. S \<noteq> []) (subseqs ds)))
       \<and> Suc (length (combine ds)) = 2 ^ length ds"
proof -
  consider "ds = []" | a where "ds = [a]" | a b where "ds = [a, b]"
    | a b c where "ds = [a, b, c]"
  proof (cases ds)
    case Nil then show ?thesis using that by blast
  next
    case (Cons a ds1)
    note c1 = this
    show ?thesis
    proof (cases ds1)
      case Nil then show ?thesis using that c1 by blast
    next
      case (Cons b ds2)
      note c2 = this
      show ?thesis
      proof (cases ds2)
        case Nil then show ?thesis using that c1 c2 by blast
      next
        case (Cons c ds3)
        then have "ds3 = []" using assms(1) c1 c2 by simp
        then show ?thesis using that c1 c2 Cons by blast
      qed
    qed
  qed
  then show ?thesis
  proof cases
    case 1 then show ?thesis using images_0 by (simp add: combine_0)
  next
    case 2 then show ?thesis using images_1 assms(2) by (simp add: combine_1)
  next
    case 3 then show ?thesis using images_2 assms(2) by (simp add: combine_2)
  next
    case 4 then show ?thesis using images_3 assms(2) by (simp add: combine_3)
  qed
qed

text \<open>
  Claim C3. With \<open>k\<close> axes flagged at the wrapped center, \<open>find_centers\<close> returns
  \<open>2 ^ k\<close> centers: first the wrapped center, and then, in some order, the wrapped
  center translated by the sum of each non-empty subset of the \<open>k\<close> displacements.
  So it returns between 1 and 8 centers.
\<close>

theorem find_centers_image_set:
  fixes self :: pkdtree and center :: vec and radius :: real
  assumes "dim self = 3" "length (box self) = 3" "length center = 3"
  defines "wc \<equiv> wrap (box self) center"
  defines "k \<equiv> length (filter (flagged self wc radius) [0..<3])"
  shows "k \<le> 3
       \<and> length (find_centers self center radius) = 2 ^ k
       \<and> hd (find_centers self center radius) = wc
       \<and> mset (find_centers self center radius) = mset (subset_images self wc radius)
       \<and> 1 \<le> length (find_centers self center radius)
       \<and> length (find_centers self center radius) \<le> 8"
proof -
  define ds where "ds = map (axis_displacement self wc radius) (filter (flagged self wc radius) [0..<3])"
  have k: "length ds = k" by (simp add: ds_def k_def)
  have k3: "k \<le> 3" using length_filter_le [of "flagged self wc radius" "[0..<3]"] by (simp add: k_def)
  have len: "\<forall>d \<in> set ds. length d = 3" by (auto simp: ds_def)
  have fc: "find_centers self center radius = wc # map (vadd wc) (combine ds)"
    by (simp add: find_centers_flagged [OF assms(1,2)] wc_def ds_def Let_def)
  from images_le_3 [of ds wc] k k3 len
  have im: "mset (map (vadd wc) (combine ds))
       = mset (map (\<lambda>S. vadd wc (vsum S)) (filter (\<lambda>S. S \<noteq> []) (subseqs ds)))"
    and n: "Suc (length (combine ds)) = 2 ^ k" by simp_all
  have l: "length (find_centers self center radius) = 2 ^ k" using fc n by simp
  have "(2::nat) ^ k \<le> 2 ^ 3" using k3 by (intro power_increasing) simp_all
  then have u: "length (find_centers self center radius) \<le> 8" using l by simp
  have m: "mset (find_centers self center radius) = mset (subset_images self wc radius)"
    using fc im by (simp add: subset_images_def ds_def [symmetric] Let_def)
  show ?thesis using k3 l u m fc by simp
qed

theorem find_centers_image_set_witness:
  "dim demo_tree = 3 \<and> length (box demo_tree) = 3 \<and> length [21, - 31, 1 :: real] = 3
   \<and> length (filter (flagged demo_tree (wrap (box demo_tree) [21, - 31, 1]) (3 / 2)) [0..<3]) = 3
   \<and> length (find_centers demo_tree [21, - 31, 1] (3 / 2)) = 8
   \<and> mset (find_centers demo_tree [21, - 31, 1] (3 / 2))
       = mset (subset_images demo_tree (wrap (box demo_tree) [21, - 31, 1]) (3 / 2))"
proof -
  have d: "dim demo_tree = 3" and b: "length (box demo_tree) = 3"
    by code_simp+
  have c: "length [21, - 31, 1 :: real] = 3" by simp
  have k: "length (filter (flagged demo_tree (wrap (box demo_tree) [21, - 31, 1]) (3 / 2)) [0..<3]) = 3"
    by code_simp
  from find_centers_image_set [OF d b c, of "3 / 2"] d b c k show ?thesis by simp
qed

subsection \<open>Results of \<open>search\<close>\<close>

text \<open>
  Claim C6. After a search that completes, the stored result, when it is an array, is
  in ascending order and has no repeated index; it is an array whenever the queries of
  the tree answer with arrays.
\<close>

theorem search_result_sorted_unique:
  assumes "fst (search q self center radius) = None"
  shows "(\<forall>ix. get_indices (snd (search q self center radius)) = Some ix
            \<longrightarrow> sorted ix \<and> distinct ix)
       \<and> ((\<forall>c. q (data (kdt self)) c radius \<noteq> None)
            \<longrightarrow> get_indices (snd (search q self center radius)) \<noteq> None)"
proof -
  from assms have b: "built self \<noteq> 0" and sh: "shape center = [dim self]"
    and pos: "0 < radius"
    by (auto simp: fst_search split: if_splits)
  define s where "s = snd (search_loop q radius (find_centers self (elems center) radius)
                     (self\<lparr>indices := None\<rparr>))"
  have res: "get_indices (snd (search q self center radius)) =
      (case indices s of None \<Rightarrow> None | Some ix \<Rightarrow> Some (np_sort (np_unique ix)))"
    by (simp add: search_completed [OF b sh pos] s_def [symmetric] get_indices_def Let_def
        split: option.split)
  have first: "\<forall>ix. get_indices (snd (search q self center radius)) = Some ix
            \<longrightarrow> sorted ix \<and> distinct ix"
    using res by (auto simp: sorted_np split: option.splits)
  have second: "get_indices (snd (search q self center radius)) \<noteq> None"
    if total: "\<forall>c. q (data (kdt self)) c radius \<noteq> None"
  proof -
    obtain cs where cs: "find_centers self (elems center) radius = wrap (box self) (elems center) # cs"
      using find_centers_Cons by blast
    from total obtain ix where "q (data (kdt self)) (wrap (box self) (elems center)) radius = Some ix"
      by auto
    then have "indices s = Some ix"
      unfolding s_def cs
      using search_loop_pos [OF pos, of q "wrap (box self) (elems center) # cs"
          "self\<lparr>indices := None\<rparr>"]
      by simp
    then show ?thesis using res by simp
  qed
  from first second show ?thesis by blast
qed

theorem search_result_sorted_unique_witness:
  "fst (search radius_query demo_tree (vector [11, 2, 2]) (3 / 2)) = None
   \<and> get_indices (snd (search radius_query demo_tree (vector [11, 2, 2]) (3 / 2))) = Some [0, 2, 4]
   \<and> sorted [0, 2, 4 :: nat] \<and> distinct [0, 2, 4 :: nat]"
proof -
  have h: "fst (search radius_query demo_tree (vector [11, 2, 2]) (3 / 2)) = None"
    by code_simp
  have r: "get_indices (snd (search radius_query demo_tree (vector [11, 2, 2]) (3 / 2))) = Some [0, 2, 4]"
    by code_simp
  from search_result_sorted_unique [OF h] h r show ?thesis by simp
qed

text \<open>
  Claim C8, as the code has it. \<open>search\<close> raises the not-built error exactly when no
  point set has been built; on a built object it raises the shape error exactly when
  the center does not have shape \<open>(3,)\<close>. On a built object with such a center it
  completes exactly when the radius is positive; with any other radius the tree raises
  its own error at the first query.
\<close>

theorem search_raises:
  assumes "dim self = 3"
  shows "(fst (search q self center radius) = Some NotBuiltError \<longleftrightarrow> built self = 0)
       \<and> (built self \<noteq> 0 \<longrightarrow>
            (fst (search q self center radius) = Some ShapeError \<longleftrightarrow> shape center \<noteq> [3]))
       \<and> (built self \<noteq> 0 \<and> shape center = [3] \<longrightarrow>
            (fst (search q self center radius) = None \<longleftrightarrow> 0 < radius)
          \<and> (fst (search q self center radius) = Some RadiusError \<longleftrightarrow> radius \<le> 0))"
  using assms by (auto simp: fst_search)

theorem search_raises_witness:
  "dim demo_new = 3 \<and> built demo_new = 0
   \<and> fst (search radius_query demo_new (vector [11, 2, 2]) (3 / 2)) = Some NotBuiltError
   \<and> dim demo_tree = 3 \<and> built demo_tree \<noteq> 0
   \<and> shape (vector [11, 2]) \<noteq> [3]
   \<and> fst (search radius_query demo_tree (vector [11, 2]) (3 / 2)) = Some ShapeError
   \<and> shape (vector [11, 2, 2]) = [3]
   \<and> fst (search radius_query demo_tree (vector [11, 2, 2]) (3 / 2)) = None
   \<and> fst (search radius_query demo_tree (vector [11, 2, 2]) (- 1)) = Some RadiusError"
proof -
  have d0: "dim demo_new = 3" and b0: "built demo_new = 0"
    by (simp_all add: demo_new_def)
  have d1: "dim demo_tree = 3" and b1: "built demo_tree \<noteq> 0"
    by code_simp+
  have s2: "shape (vector [11, 2]) \<noteq> [3]" and s3: "shape (vector [11, 2, 2]) = [3]"
    by (simp_all add: vector_def)
  from search_raises [OF d0, of radius_query "vector [11, 2, 2]" "3 / 2"]
    search_raises [OF d1, of radius_query "vector [11, 2]" "3 / 2"]
    search_raises [OF d1, of radius_query "vector [11, 2, 2]" "3 / 2"]
    search_raises [OF d1, of radius_query "vector [11, 2, 2]" "- 1"]
    d0 b0 d1 b1 s2 s3
  show ?thesis by simp
qed

text \<open>
  Claim C8 as stated fails: on a built object and with a center of shape \<open>(3,)\<close> a
  search with radius 0 does not complete. The tree raises at the first query, after
  the stored result was cleared.
\<close>

theorem search_radius_counterexample:
  "built demo_found \<noteq> 0
   \<and> shape (vector [11, 2, 2]) = [3]
   \<and> get_indices demo_found = Some [0, 2, 4]
   \<and> fst (search radius_query demo_found (vector [11, 2, 2]) 0) = Some RadiusError
   \<and> get_indices (snd (search radius_query demo_found (vector [11, 2, 2]) 0)) = None"
  by code_simp

text \<open>
  Claim C10. When \<open>search\<close> raises because nothing was built or because the center
  has the wrong shape, the object is left as it was, and \<open>get_indices\<close> returns the
  result that was stored before.
\<close>

theorem search_error_atomic:
  assumes "fst (search q self center radius) = Some NotBuiltError
         \<or> fst (search q self center radius) = Some ShapeError"
  shows "snd (search q self center radius) = self
       \<and> get_indices (snd (search q self center radius)) = get_indices self"
proof -
  from assms have "built self = 0 \<or> shape center \<noteq> [dim self]"
    by (auto simp: fst_search split: if_splits)
  then have "snd (search q self center radius) = self"
    by (auto simp: search_def)
  then show ?thesis by simp
qed


theorem search_error_atomic_witness:
  "fst (search radius_query demo_found (vector [11, 2]) (3 / 2)) = Some ShapeError
   \<and> get_indices demo_found = Some [0, 2, 4]
   \<and> get_indices (snd (search radius_query demo_found (vector [11, 2]) (3 / 2))) = Some [0, 2, 4]"
proof -
  have e: "fst (search radius_query demo_found (vector [11, 2]) (3 / 2)) = Some ShapeError"
    by code_simp
  have r: "get_indices demo_found = Some [0, 2, 4]"
    by code_simp
  from search_error_atomic [OF disjI2, OF e] e r show ?thesis by simp
qed

text \<open>
  Claim C5, as the code has it. \<open>set_coords\<close> does not touch the stored result:
  \<open>get_indices\<close> returns after the call what it returned before. When the call
  completes, the tree holds the wrapped new coordinates and the object is built.
\<close>

theorem set_coords_keeps_result:
  "get_indices (snd (set_coords self coords)) = get_indices self
   \<and> (fst (set_coords self coords) = None \<longrightarrow>
        built (snd (set_coords self coords)) = 1
      \<and> data (kdt (snd (set_coords self coords))) =
          map (wrap (box self)) (rows (dim self) (shape coords ! 0) (elems coords)))"
  by (simp add: set_coords_def Let_def get_indices_def set_data_def)

theorem set_coords_keeps_result_witness:
  "fst (set_coords demo_found face_coords) = None
   \<and> built (snd (set_coords demo_found face_coords)) = 1
   \<and> data (kdt (snd (set_coords demo_found face_coords))) = [[1 / 2, 5, 5], [19 / 2, 5, 5]]
   \<and> get_indices (snd (set_coords demo_found face_coords)) = get_indices demo_found"
proof -
  have ok: "fst (set_coords demo_found face_coords) = None"
    by code_simp
  have d: "map (wrap (box demo_found))
             (rows (dim demo_found) (shape face_coords ! 0) (elems face_coords))
         = [[1 / 2, 5, 5], [19 / 2, 5, 5]]"
    by code_simp
  from set_coords_keeps_result [of demo_found face_coords] ok d show ?thesis by simp
qed

text \<open>
  Claim C5 as stated fails: a result found on the old point set is still returned
  after \<open>set_coords\<close> has replaced the points of a built object.
\<close>

theorem set_coords_discards_result_counterexample:
  "built demo_found \<noteq> 0
   \<and> get_indices demo_found = Some [0, 2, 4]
   \<and> fst (set_coords demo_found face_coords) = None
   \<and> length (data (kdt (snd (set_coords demo_found face_coords)))) = 2
   \<and> get_indices (snd (set_coords demo_found face_coords)) = Some [0, 2, 4]"
  by code_simp

text \<open>
  Claim C7, as the code has it. \<open>set_coords\<close> rejects an array with the range error,
  leaving the object as it was, exactly when the array is not empty and holds a value
  at most \<open>-1e6\<close> or at least \<open>1e6\<close>; \<open>search\<close> has no such guard and never raises
  the range error.
\<close>

theorem set_coords_range_guard:
  "(fst (set_coords self coords) = Some RangeError \<longleftrightarrow>
      elems coords \<noteq> [] \<and> (\<exists>x \<in> set (elems coords). x \<le> - 1000000 \<or> 1000000 \<le> x))
   \<and> (fst (set_coords self coords) = Some RangeError \<longrightarrow> snd (set_coords self coords) = self)
   \<and> fst (search q tree center radius) \<noteq> Some RangeError"
proof (intro conjI)
  show "fst (set_coords self coords) = Some RangeError \<longleftrightarrow>
      elems coords \<noteq> [] \<and> (\<exists>x \<in> set (elems coords). x \<le> - 1000000 \<or> 1000000 \<le> x)"
    by (auto simp: set_coords_def Let_def amin_le_iff amax_ge_iff)
  show "fst (set_coords self coords) = Some RangeError \<longrightarrow> snd (set_coords self coords) = self"
    by (simp add: set_coords_def Let_def)
  show "fst (search q tree center radius) \<noteq> Some RangeError"
    by (simp add: fst_search)
qed


theorem set_coords_range_guard_witness:
  "fst (set_coords demo_new (matrix 3 [[1, 2, 1000001]])) = Some RangeError
   \<and> snd (set_coords demo_new (matrix 3 [[1, 2, 1000001]])) = demo_new
   \<and> fst (set_coords demo_new (matrix 3 [[1, 2, 999999]])) \<noteq> Some RangeError
   \<and> fst (search radius_query demo_tree (vector [2000001, 2, 2]) (3 / 2)) \<noteq> Some RangeError"
proof -
  have big: "elems (matrix 3 [[1, 2, 1000001]]) \<noteq> []
      \<and> (\<exists>x \<in> set (elems (matrix 3 [[1, 2, 1000001]])). x \<le> - 1000000 \<or> 1000000 \<le> x)"
    by (simp add: matrix_def)
  have small: "\<not> (\<exists>x \<in> set (elems (matrix 3 [[1, 2, 999999]])). x \<le> - 1000000 \<or> 1000000 \<le> x)"
    by (simp add: matrix_def)
  from set_coords_range_guard [of demo_new "matrix 3 [[1, 2, 1000001]]" radius_query
      demo_tree "vector [2000001, 2, 2]" "3 / 2"]
    set_coords_range_guard [of demo_new "matrix 3 [[1, 2, 999999]]" radius_query
      demo_tree "vector [2000001, 2, 2]" "3 / 2"]
    big small
  show ?thesis by blast
qed

text \<open>
  Claim C7 as stated fails for query centers: a center with a coordinate above \<open>2e6\<close> is
  wrapped and searched, and the search completes.
\<close>

theorem search_range_counterexample:
  "\<bar>hd (elems (vector [2000001, 2, 2]))\<bar> > 1000000
   \<and> fst (search radius_query demo_tree (vector [2000001, 2, 2]) (3 / 2)) = None
   \<and> get_indices (snd (search radius_query demo_tree (vector [2000001, 2, 2]) (3 / 2)))
       = Some [0, 2, 4]"
  by code_simp

text \<open>
  Claim C1 at a center next to a periodic face: two image centers are queried, the
  first query finds point 0 and the second finds point 1, and the stored result holds
  point 0 only.
\<close>

theorem search_drops_image_results:
  "find_centers face_tree [1 / 5, 5, 5] 1 = [[1 / 5, 5, 5], [51 / 5, 5, 5]]
   \<and> radius_query (data (kdt face_tree)) [1 / 5, 5, 5] 1 = Some [0]
   \<and> radius_query (data (kdt face_tree)) [51 / 5, 5, 5] 1 = Some [1]
   \<and> fst (search radius_query face_tree (vector [1 / 5, 5, 5]) 1) = None
   \<and> get_indices (snd (search radius_query face_tree (vector [1 / 5, 5, 5]) 1)) = Some [0]"
  by code_simp

text \<open>
  Claim C2 at the same input, with a radius below half the box length: point 1,
  translated by one box length along the first axis, lies within the radius of the
  center, and the stored result does not hold it.
\<close>

theorem search_misses_periodic_neighbor:
  "(1 :: real) \<le> 10 / 2
   \<and> data (kdt face_tree) ! 1 = [19 / 2, 5, 5]
   \<and> dist2 (vadd [19 / 2, 5, 5] [- 10, 0, 0]) [1 / 5, 5, 5] \<le> 1\<^sup>2
   \<and> get_indices (snd (search radius_query face_tree (vector [1 / 5, 5, 5]) 1)) = Some [0]"
  by code_simp

text \<open>
  Claim C4, as the code has it. In the scenario of the main block the points are stored
  as \<open>[2,2,2]\<close>, \<open>[5,5,5]\<close>, \<open>[1.1,1.1,1.1]\<close>, \<open>[1,9,1]\<close> and \<open>[1,1,3]\<close>, and the
  search around \<open>[11,2,2]\<close> with radius 1.5 returns the indices 0, 2 and 4.
\<close>

theorem demo_search_result:
  "init demo_box 10 = Inr demo_new
   \<and> data (kdt demo_tree) = [[2, 2, 2], [5, 5, 5], [11 / 10, 11 / 10, 11 / 10], [1, 9, 1], [1, 1, 3]]
   \<and> fst (search radius_query demo_tree (vector [11, 2, 2]) (3 / 2)) = None
   \<and> get_indices (snd (search radius_query demo_tree (vector [11, 2, 2]) (3 / 2))) = Some [0, 2, 4]"
proof -
  have "data (kdt demo_tree) = [[2, 2, 2], [5, 5, 5], [11 / 10, 11 / 10, 11 / 10], [1, 9, 1], [1, 1, 3]]"
    by code_simp
  moreover have "fst (search radius_query demo_tree (vector [11, 2, 2]) (3 / 2)) = None"
    by code_simp
  moreover have "get_indices (snd (search radius_query demo_tree (vector [11, 2, 2]) (3 / 2))) = Some [0, 2, 4]"
    by code_simp
  ultimately show ?thesis
    by (simp add: init_def demo_box_def demo_new_def Let_def)
qed

text \<open>
  Claim C4 as stated fails: the result is not the index of point 0 alone; points 2 and
  4 lie within the radius of the wrapped center \<open>[1,2,2]\<close> as well.
\<close>

theorem demo_search_counterexample:
  "get_indices (snd (search radius_query demo_tree (vector [11, 2, 2]) (3 / 2))) \<noteq> Some [0]
   \<and> wrap (box demo_tree) [11, 2, 2] = [1, 2, 2]
   \<and> dist2 (data (kdt demo_tree) ! 2) [1, 2, 2] \<le> (3 / 2)\<^sup>2
   \<and> dist2 (data (kdt demo_tree) ! 4) [1, 2, 2] \<le> (3 / 2)\<^sup>2"
  by code_simp

end
